theory Spec2Isabelle
  imports Main "HOL-Library.Word"
begin

section \<open>The arena allocator of arena.h\<close>

text \<open>
  The header is modelled for an LP64 target: \<open>size_t\<close> and \<open>uintptr_t\<close> are unsigned
  64-bit integers, whose arithmetic wraps around. Three values come from the system
  headers and the ABI and not from the repository: \<open>SIZE_MAX = UINTPTR_MAX = 2^64 - 1\<close>,
  \<open>_Alignof(max_align_t) = 16\<close> and \<open>sizeof(ArenaBlock) = 24\<close> (three 8-byte fields in front
  of the flexible array member \<open>data\<close>).
\<close>

type_synonym size_t = "64 word"
type_synonym uintptr_t = "64 word"
type_synonym byte = "8 word"

definition NULL :: uintptr_t where
  "NULL = 0"

definition SIZE_MAX :: size_t where
  "SIZE_MAX = 18446744073709551615"

definition UINTPTR_MAX :: uintptr_t where
  "UINTPTR_MAX = 18446744073709551615"

definition alignof_max_align_t :: size_t where
  "alignof_max_align_t = 16"

definition sizeof_ArenaBlock :: size_t where
  "sizeof_ArenaBlock = 24"

subsection \<open>Data\<close>

text \<open>
  A block is known by its address \<open>addr\<close>, the pointer \<open>malloc\<close> returned for it. The
  chain that hangs from \<open>a->current\<close> through the \<open>prev\<close> links is owned by the arena alone
  and is kept as the list of its blocks, newest first: the head of the list is
  \<open>*a->current\<close>, the tail of the list is what \<open>prev\<close> points to, and the empty list is
  the null pointer. A pointer to a block is compared by address, as the C code does. The
  bytes of \<open>data\<close> start \<open>sizeof(ArenaBlock)\<close> after the address of the block.
\<close>

record ArenaBlock =
  addr :: uintptr_t
  capacity :: size_t
  offset :: size_t

record Arena =
  current :: "ArenaBlock list"
  default_block_size :: size_t
  reserved :: size_t

record ArenaMark =
  m_block :: uintptr_t
  m_offset :: size_t

definition data :: "ArenaBlock \<Rightarrow> uintptr_t" where
  "data b = addr b + sizeof_ArenaBlock"

definition current_ptr :: "Arena \<Rightarrow> uintptr_t" where
  "current_ptr a = (case current a of [] \<Rightarrow> NULL | b # _ \<Rightarrow> addr b)"

subsection \<open>The environment: malloc, free and the bytes of memory\<close>

text \<open>
  \<open>malloc\<close> is the environment's. A run of the program sees its answers one after the
  other, so the model is given the list of the answers still to come (\<open>NULL\<close> for a call
  that fails) and each call takes the first. A call made after the list is used up fails:
  the blocks of a chain are all live, so a run never sees more than finitely many
  successful answers.

  The bytes the callers read and write are a map from addresses to bytes.
\<close>

type_synonym mallocs = "uintptr_t list"
type_synonym memory = "uintptr_t \<Rightarrow> byte"

definition malloc :: "size_t \<Rightarrow> mallocs \<Rightarrow> uintptr_t \<times> mallocs" where
  "malloc n ms = (case ms of [] \<Rightarrow> (NULL, []) | p # ms' \<Rightarrow> (p, ms'))"

definition memset :: "memory \<Rightarrow> uintptr_t \<Rightarrow> byte \<Rightarrow> size_t \<Rightarrow> memory" where
  "memset m p c n = (\<lambda>x. if x - p < n then c else m x)"

definition memcpy :: "memory \<Rightarrow> uintptr_t \<Rightarrow> byte list \<Rightarrow> size_t \<Rightarrow> memory" where
  "memcpy m p src n = (\<lambda>x. if x - p < n \<and> unat (x - p) < length src then src ! unat (x - p) else m x)"

definition strlen :: "byte list \<Rightarrow> size_t" where
  "strlen s = of_nat (length (takeWhile (\<lambda>c. c \<noteq> 0) s))"

subsection \<open>Alignment and block creation\<close>

definition arena__align_up_ptr :: "uintptr_t \<Rightarrow> size_t \<Rightarrow> uintptr_t" where
  "arena__align_up_ptr p align0 =
     (let align = (if align0 = 0 then alignof_max_align_t else align0);
          rem = p mod align;
          add = align - rem
      in if p > UINTPTR_MAX - add then 0 else p + add)"

definition arena__max :: "size_t \<Rightarrow> size_t \<Rightarrow> size_t" where
  "arena__max a b = (if a > b then a else b)"

definition arena__new_block :: "size_t \<Rightarrow> mallocs \<Rightarrow> ArenaBlock option \<times> mallocs" where
  "arena__new_block capacity0 ms =
     (let cap = (if capacity0 = 0 then 1 else capacity0)
      in if cap > SIZE_MAX - sizeof_ArenaBlock then (None, ms)
         else (case malloc (sizeof_ArenaBlock + cap) ms of
                 (p, ms') \<Rightarrow>
                   if p = NULL then (None, ms')
                   else (Some \<lparr>addr = p, capacity = cap, offset = 0\<rparr>, ms')))"

subsection \<open>init and destroy\<close>

text \<open>
  \<open>arena_init\<close> writes all three fields and reads none: a chain the arena still had is
  dropped without being freed.
\<close>

definition arena_init :: "Arena \<Rightarrow> size_t \<Rightarrow> mallocs \<Rightarrow> Arena \<times> mallocs" where
  "arena_init a initial_block_size ms =
     (case arena__new_block initial_block_size ms of
        (nb, ms') \<Rightarrow>
          (\<lparr>current = (case nb of None \<Rightarrow> [] | Some b \<Rightarrow> [b]),
            default_block_size = (if initial_block_size \<noteq> 0 then initial_block_size else 1),
            reserved = (case nb of None \<Rightarrow> 0 | Some b \<Rightarrow> capacity b)\<rparr>, ms'))"

fun destroy_loop :: "ArenaBlock list \<Rightarrow> ArenaBlock list" where
  "destroy_loop [] = []"
| "destroy_loop (b # prev) = destroy_loop prev"

definition arena_destroy :: "Arena \<Rightarrow> Arena" where
  "arena_destroy a =
     \<lparr>current = destroy_loop (current a), default_block_size = 0, reserved = 0\<rparr>"

subsection \<open>Allocation\<close>

text \<open>
  The loop of \<open>arena_alloc_align\<close>. Its variable \<open>b\<close> is \<open>a->current\<close> at the head of every
  pass, so the pass works on the head of the chain. The assignment
  \<open>min_needed = size = (align ? align - 1 : 0)\<close> changes the parameter \<open>size\<close>, and the
  next pass runs with the new value. The function is entered with a current block only;
  the case of the empty chain is there for totality.
\<close>

function alloc_loop :: "Arena \<Rightarrow> size_t \<Rightarrow> size_t \<Rightarrow> mallocs \<Rightarrow> uintptr_t \<times> Arena \<times> mallocs" where
  "alloc_loop a sz align ms =
     (case current a of
        [] \<Rightarrow> (NULL, a, ms)
      | b # prev \<Rightarrow>
          (let base = data b + offset b;
               aligned = arena__align_up_ptr base align
           in if aligned = 0 then (NULL, a, ms)
              else
                (let aligned_off = aligned - data b
                 in if aligned_off \<le> capacity b \<and> capacity b - aligned_off \<ge> sz
                    then (aligned, a\<lparr>current := b\<lparr>offset := aligned_off + sz\<rparr> # prev\<rparr>, ms)
                    else if align \<noteq> 0 \<and> sz > SIZE_MAX - (align - 1) then (NULL, a, ms)
                    else
                      (let sz' = (if align \<noteq> 0 then align - 1 else 0);
                           min_needed = sz';
                           cap = arena__max (default_block_size a) min_needed
                       in case arena__new_block cap ms of
                            (None, ms') \<Rightarrow> (NULL, a, ms')
                          | (Some nb, ms') \<Rightarrow>
                              alloc_loop
                                (a\<lparr>current := nb # current a,
                                   reserved := reserved a + capacity nb\<rparr>)
                                sz' align ms'))))"
  by pat_completeness auto

lemma new_block_shorter:
  "arena__new_block c ms = (Some nb, ms') \<Longrightarrow> length ms' < length ms"
  by (auto simp: arena__new_block_def malloc_def Let_def split: if_splits list.splits)

termination alloc_loop
  by (relation "measure (\<lambda>(a, sz, align, ms). length ms)") (auto dest: new_block_shorter [OF sym])

definition arena_alloc_align :: "Arena \<Rightarrow> size_t \<Rightarrow> size_t \<Rightarrow> mallocs \<Rightarrow> uintptr_t \<times> Arena \<times> mallocs" where
  "arena_alloc_align a sz align ms =
     (if sz = 0 then (NULL, a, ms)
      else if current a = [] then
        (case arena_init a
                (arena__max (default_block_size a) (sz + (if align \<noteq> 0 then align else 0))) ms of
           (a', ms') \<Rightarrow>
             if current a' = [] then (NULL, a', ms') else alloc_loop a' sz align ms')
      else alloc_loop a sz align ms)"

definition arena_alloc :: "Arena \<Rightarrow> size_t \<Rightarrow> mallocs \<Rightarrow> uintptr_t \<times> Arena \<times> mallocs" where
  "arena_alloc a sz ms = arena_alloc_align a sz alignof_max_align_t ms"

definition arena_zalloc_align ::
    "Arena \<Rightarrow> size_t \<Rightarrow> size_t \<Rightarrow> mallocs \<Rightarrow> memory \<Rightarrow> uintptr_t \<times> Arena \<times> mallocs \<times> memory" where
  "arena_zalloc_align a sz align ms mem =
     (case arena_alloc_align a sz align ms of
        (p, a', ms') \<Rightarrow> (p, a', ms', if p \<noteq> NULL then memset mem p 0 sz else mem))"

text \<open>
  \<open>arena_strdup\<close> is given the bytes that stand at \<open>s\<close>; \<open>strlen\<close> counts them up to the
  first zero byte, and \<open>memcpy\<close> copies the first \<open>n\<close> of them. \<open>_Alignof(char)\<close> is 1.
\<close>

definition arena_strdup ::
    "Arena \<Rightarrow> byte list \<Rightarrow> mallocs \<Rightarrow> memory \<Rightarrow> uintptr_t \<times> Arena \<times> mallocs \<times> memory" where
  "arena_strdup a s ms mem =
     (let n = strlen s + 1
      in case arena_alloc_align a n 1 ms of
           (p, a', ms') \<Rightarrow> (p, a', ms', if p \<noteq> NULL then memcpy mem p s n else mem))"

subsection \<open>Reset\<close>

text \<open>
  The loop of \<open>arena_reset\<close> runs \<open>free(b)\<close> first and reads \<open>b->capacity\<close> afterwards.
  \<open>free\<close> ends the lifetime of the block, and C does not say what a read of its fields
  then yields (the allocator is free to reuse the bytes: glibc keeps its own list
  link and key in the first sixteen bytes of a freed region, which is where \<open>prev\<close>
  and \<open>capacity\<close> stood). The value read is therefore an input of the model:
  \<open>freed_capacity b\<close> is what \<open>b->capacity\<close> yields once \<open>b\<close> has been freed. \<open>b->prev\<close> is
  read before \<open>free(b)\<close> and is the tail of the list.
\<close>

fun reset_loop :: "(ArenaBlock \<Rightarrow> size_t) \<Rightarrow> ArenaBlock \<Rightarrow> ArenaBlock list \<Rightarrow> size_t \<Rightarrow> ArenaBlock \<times> size_t" where
  "reset_loop freed_capacity b [] r = (b, r)"
| "reset_loop freed_capacity b (p # prev) r = reset_loop freed_capacity p prev (r - freed_capacity b)"

definition arena_reset :: "(ArenaBlock \<Rightarrow> size_t) \<Rightarrow> Arena \<Rightarrow> Arena" where
  "arena_reset freed_capacity a =
     (case current a of
        [] \<Rightarrow> a
      | b # prev \<Rightarrow>
          (case reset_loop freed_capacity b prev (reserved a) of
             (b', r) \<Rightarrow> a\<lparr>current := [b'\<lparr>offset := 0\<rparr>], reserved := r\<rparr>))"

subsection \<open>Mark and release\<close>

definition arena_mark :: "Arena \<Rightarrow> ArenaMark" where
  "arena_mark a =
     \<lparr>m_block = current_ptr a,
      m_offset = (case current a of [] \<Rightarrow> 0 | b # _ \<Rightarrow> offset b)\<rparr>"

text \<open>
  The loop of \<open>arena_release\<close> reads \<open>prev\<close> and \<open>capacity\<close> before it frees the block. It
  returns the chain that is left and the new value of \<open>reserved\<close>.
\<close>

fun release_loop :: "uintptr_t \<Rightarrow> ArenaBlock list \<Rightarrow> size_t \<Rightarrow> ArenaBlock list \<times> size_t" where
  "release_loop mb [] r = ([], r)"
| "release_loop mb (b # prev) r =
     (if addr b \<noteq> mb then release_loop mb prev (r - capacity b) else (b # prev, r))"

definition arena_release :: "Arena \<Rightarrow> ArenaMark \<Rightarrow> Arena" where
  "arena_release a m =
     (if current a = [] then a
      else
        (case release_loop (m_block m) (current a) (reserved a) of
           (bs, r) \<Rightarrow>
             (case bs of
                [] \<Rightarrow> a\<lparr>current := [], reserved := r\<rparr>
              | b # prev \<Rightarrow>
                  if addr b = m_block m
                  then a\<lparr>current := b\<lparr>offset := (if m_offset m \<le> capacity b then m_offset m else 0)\<rparr> # prev,
                         reserved := r\<rparr>
                  else a\<lparr>current := bs, reserved := r\<rparr>)))"

subsection \<open>Accounting\<close>

definition arena_bytes_reserved :: "Arena \<Rightarrow> size_t" where
  "arena_bytes_reserved a = reserved a"

fun used_loop :: "ArenaBlock list \<Rightarrow> size_t \<Rightarrow> size_t" where
  "used_loop [] used = used"
| "used_loop (b # prev) used = used_loop prev (used + offset b)"

definition arena_bytes_used :: "Arena \<Rightarrow> size_t" where
  "arena_bytes_used a = used_loop (current a) 0"

subsection \<open>Callers\<close>

text \<open>
  A caller that makes one allocation after the other and goes on only while each one
  succeeds: \<open>None\<close> when a call returned \<open>NULL\<close>.
\<close>

fun alloc_seq :: "(size_t \<times> size_t) list \<Rightarrow> Arena \<Rightarrow> mallocs \<Rightarrow> (Arena \<times> mallocs) option" where
  "alloc_seq [] a ms = Some (a, ms)"
| "alloc_seq ((sz, align) # rs) a ms =
     (case arena_alloc_align a sz align ms of
        (p, a', ms') \<Rightarrow> if p = NULL then None else alloc_seq rs a' ms')"

text \<open>The zero-valued arena \<open>Arena a = {0}\<close>.\<close>

definition zero_arena :: Arena where
  "zero_arena = \<lparr>current = [], default_block_size = 0, reserved = 0\<rparr>"

text \<open>
  What a walk from the head of a chain down to the block at address \<open>mb\<close> leaves, with
  the offset of that block set to \<open>off\<close>: the part of a chain that allocations made
  after a mark do not touch.
\<close>

definition retained :: "uintptr_t \<Rightarrow> size_t \<Rightarrow> ArenaBlock list \<Rightarrow> ArenaBlock list" where
  "retained mb off bs =
     (case dropWhile (\<lambda>b. addr b \<noteq> mb) bs of
        [] \<Rightarrow> []
      | b # prev \<Rightarrow> b\<lparr>offset := off\<rparr> # prev)"

text \<open>
  The two invariants of the data model: the offset of every block is within its
  capacity, and \<open>reserved\<close> is the sum of the capacities of the blocks of the chain
  (a sum of \<open>size_t\<close> values).
\<close>

definition blocks_ok :: "ArenaBlock list \<Rightarrow> bool" where
  "blocks_ok bs = list_all (\<lambda>b. offset b \<le> capacity b) bs"

definition accounted :: "Arena \<Rightarrow> bool" where
  "accounted a = (reserved a = sum_list (map capacity (current a)))"

section \<open>The allocation loop\<close>

text \<open>
  The defining equation of \<open>alloc_loop\<close> is taken out of the simplifier and used one
  pass at a time.
\<close>

declare alloc_loop.simps [simp del]

lemma alloc_loop_Nil: "current a = [] \<Longrightarrow> alloc_loop a sz align ms = (NULL, a, ms)"
  by (subst alloc_loop.simps) simp

lemma alloc_loop_Cons:
  "current a = b # prev \<Longrightarrow>
   alloc_loop a sz align ms =
     (if arena__align_up_ptr (data b + offset b) align = 0 then (NULL, a, ms)
      else if arena__align_up_ptr (data b + offset b) align - data b \<le> capacity b
              \<and> sz \<le> capacity b - (arena__align_up_ptr (data b + offset b) align - data b)
      then (arena__align_up_ptr (data b + offset b) align,
            a\<lparr>current := b\<lparr>offset := arena__align_up_ptr (data b + offset b) align - data b + sz\<rparr> # prev\<rparr>,
            ms)
      else if align \<noteq> 0 \<and> SIZE_MAX - (align - 1) < sz then (NULL, a, ms)
      else (case arena__new_block
                   (arena__max (default_block_size a) (if align \<noteq> 0 then align - 1 else 0)) ms of
              (None, ms') \<Rightarrow> (NULL, a, ms')
            | (Some nb, ms') \<Rightarrow>
                alloc_loop (a\<lparr>current := nb # current a, reserved := reserved a + capacity nb\<rparr>)
                  (if align \<noteq> 0 then align - 1 else 0) align ms'))"
  by (subst alloc_loop.simps) (simp add: Let_def)

lemma fits_within: "(x :: size_t) \<le> c \<Longrightarrow> n \<le> c - x \<Longrightarrow> x + n \<le> c"
  by unat_arith

text \<open>
  A property of the arena and of the answers \<open>malloc\<close> has left holds after the loop
  when every pass keeps it: a pass moves the offset of the current block to a value
  within its capacity, links a new block, or fails to get one.
\<close>

lemma alloc_loop_invariant:
  assumes fit: "\<And>a ms b prev off. P a ms \<Longrightarrow> current a = b # prev \<Longrightarrow> off \<le> capacity b \<Longrightarrow>
                  P (a\<lparr>current := b\<lparr>offset := off\<rparr> # prev\<rparr>) ms"
    and push: "\<And>a ms c nb ms'. P a ms \<Longrightarrow> arena__new_block c ms = (Some nb, ms') \<Longrightarrow>
                  P (a\<lparr>current := nb # current a, reserved := reserved a + capacity nb\<rparr>) ms'"
    and fail: "\<And>a ms c ms'. P a ms \<Longrightarrow> arena__new_block c ms = (None, ms') \<Longrightarrow> P a ms'"
  shows "P a ms \<Longrightarrow> alloc_loop a sz align ms = (p, a', ms') \<Longrightarrow> P a' ms'"
proof (induction a sz align ms rule: alloc_loop.induct)
  case (1 a sz align ms)
  show ?case
  proof (cases "current a")
    case Nil
    with "1.prems" show ?thesis by (simp add: alloc_loop_Nil)
  next
    case (Cons b prev)
    let ?al = "arena__align_up_ptr (data b + offset b) align"
    let ?sz' = "if align \<noteq> 0 then align - 1 else 0"
    let ?cap = "arena__max (default_block_size a) ?sz'"
    note eq = "1.prems"(2) [unfolded alloc_loop_Cons [OF Cons]]
    show ?thesis
    proof (cases "?al = 0")
      case True
      with eq "1.prems"(1) show ?thesis by simp
    next
      case nz: False
      show ?thesis
      proof (cases "?al - data b \<le> capacity b \<and> sz \<le> capacity b - (?al - data b)")
        case True
        then have "?al - data b + sz \<le> capacity b" by (simp add: fits_within)
        from fit [OF "1.prems"(1) Cons this] eq nz True show ?thesis by auto
      next
        case nofit: False
        show ?thesis
        proof (cases "align \<noteq> 0 \<and> SIZE_MAX - (align - 1) < sz")
          case True
          with eq nz nofit "1.prems"(1) show ?thesis by auto
        next
          case noovf: False
          obtain r ms1 where nb: "arena__new_block ?cap ms = (r, ms1)"
            by (cases "arena__new_block ?cap ms")
          show ?thesis
          proof (cases r)
            case None
            with eq nz nofit noovf nb fail [OF "1.prems"(1)] show ?thesis by auto
          next
            case (Some b')
            have rec: "alloc_loop (a\<lparr>current := b' # current a, reserved := reserved a + capacity b'\<rparr>)
                         ?sz' align ms1 = (p, a', ms')"
              using eq nz nofit noovf nb Some Cons by auto
            have P1: "P (a\<lparr>current := b' # current a, reserved := reserved a + capacity b'\<rparr>) ms1"
              using push [OF "1.prems"(1)] nb Some by simp
            from nofit have nofit': "\<not> (?al - data b \<le> capacity b \<and> sz \<le> capacity b - (?al - data b))" .
            show ?thesis
              by (rule "1.IH" [OF Cons refl refl nz refl nofit' noovf refl refl refl _ Some P1 rec])
                 (simp add: nb)
          qed
        qed
      qed
    qed
  qed
qed

lemma new_block_addr:
  "arena__new_block c ms = (Some nb, ms') \<Longrightarrow> addr nb \<noteq> NULL \<and> addr nb \<in> set ms \<and> set ms' \<subseteq> set ms \<and> offset nb = 0"
  by (auto simp: arena__new_block_def malloc_def Let_def split: if_splits list.splits)

lemma new_block_rest:
  "arena__new_block c ms = (r, ms') \<Longrightarrow> set ms' \<subseteq> set ms"
  by (auto simp: arena__new_block_def malloc_def Let_def split: if_splits list.splits)

lemma new_block_fresh:
  "arena__new_block c ms = (Some nb, ms') \<Longrightarrow> mb = NULL \<or> mb \<notin> set ms \<Longrightarrow> addr nb \<noteq> mb"
  by (auto dest: new_block_addr)

lemma alloc_loop_dbs:
  "alloc_loop a sz align ms = (p, a', ms') \<Longrightarrow> default_block_size a' = default_block_size a"
  by (rule alloc_loop_invariant [where P = "\<lambda>x _. default_block_size x = default_block_size a"]) auto

lemma alloc_loop_length:
  "alloc_loop a sz align ms = (p, a', ms') \<Longrightarrow> length (current a) \<le> length (current a')"
  by (rule alloc_loop_invariant [where P = "\<lambda>x _. length (current a) \<le> length (current x)"]) auto

lemma retained_push: "addr nb \<noteq> mb \<Longrightarrow> retained mb off (nb # bs) = retained mb off bs"
  by (simp add: retained_def)

lemma retained_head: "retained mb off (b\<lparr>offset := x\<rparr> # prev) = retained mb off (b # prev)"
  by (simp add: retained_def)

lemma alloc_loop_retained:
  assumes "mb = NULL \<or> mb \<notin> set ms"
    and "alloc_loop a sz align ms = (p, a', ms')"
  shows "retained mb off (current a') = retained mb off (current a) \<and> (mb = NULL \<or> mb \<notin> set ms')"
  by (rule alloc_loop_invariant
        [where P = "\<lambda>x xs. retained mb off (current x) = retained mb off (current a) \<and> (mb = NULL \<or> mb \<notin> set xs)",
         OF _ _ _ _ assms(2)])
     (use assms(1) in \<open>auto simp: retained_head retained_push new_block_fresh dest: new_block_rest\<close>)

section \<open>Release and the part of the chain a mark keeps\<close>

lemma release_loop_eq:
  "release_loop mb bs r =
     (dropWhile (\<lambda>b. addr b \<noteq> mb) bs,
      r - sum_list (map capacity (takeWhile (\<lambda>b. addr b \<noteq> mb) bs)))"
  by (induction bs arbitrary: r) (simp_all add: algebra_simps)

lemma dropWhile_addr_head:
  "dropWhile (\<lambda>b. addr b \<noteq> mb) bs = b # prev \<Longrightarrow> addr b = mb"
  by (induction bs) (simp_all split: if_splits)

lemma release_current:
  "current (arena_release a m) =
     (case dropWhile (\<lambda>b. addr b \<noteq> m_block m) (current a) of
        [] \<Rightarrow> []
      | b # prev \<Rightarrow> b\<lparr>offset := (if m_offset m \<le> capacity b then m_offset m else 0)\<rparr> # prev)"
proof (cases "dropWhile (\<lambda>b. addr b \<noteq> m_block m) (current a)")
  case Nil
  show ?thesis
    unfolding arena_release_def release_loop_eq Nil by simp
next
  case (Cons b prev)
  then have ne: "current a \<noteq> []" by auto
  show ?thesis
    unfolding arena_release_def release_loop_eq Cons
    using dropWhile_addr_head [OF Cons] ne by simp
qed

lemma release_retained_Nil:
  "retained (m_block m) off (current a) = [] \<Longrightarrow> current (arena_release a m) = []"
  by (cases "dropWhile (\<lambda>b. addr b \<noteq> m_block m) (current a)")
     (simp_all add: release_current retained_def del: dropWhile_eq_Nil_conv)

lemma release_retained_Cons:
  "retained (m_block m) (m_offset m) (current a) = h # prev \<Longrightarrow> m_offset m \<le> capacity h \<Longrightarrow>
   current (arena_release a m) = h # prev"
  by (cases "dropWhile (\<lambda>b. addr b \<noteq> m_block m) (current a)")
     (auto simp: release_current retained_def simp del: dropWhile_eq_Nil_conv)


lemma init_retained:
  assumes "mb = NULL \<or> mb \<notin> set ms" and "arena_init a v ms = (a', ms')"
  shows "retained mb off (current a') = [] \<and> (mb = NULL \<or> mb \<notin> set ms')"
proof (cases "arena__new_block v ms")
  case (Pair r ms1)
  with assms show ?thesis
    by (cases r) (auto simp: arena_init_def retained_push new_block_fresh retained_def dest: new_block_rest)
qed

lemma alloc_align_retained:
  assumes "mb = NULL \<or> mb \<notin> set ms"
    and "arena_alloc_align a sz align ms = (p, a', ms')"
  shows "retained mb off (current a') = retained mb off (current a) \<and> (mb = NULL \<or> mb \<notin> set ms')"
proof (cases "sz = 0")
  case True
  with assms show ?thesis by (simp add: arena_alloc_align_def)
next
  case nz: False
  show ?thesis
  proof (cases "current a = []")
    case False
    with nz assms show ?thesis
      by (simp add: arena_alloc_align_def alloc_loop_retained)
  next
    case True
    let ?v = "arena__max (default_block_size a) (sz + (if align \<noteq> 0 then align else 0))"
    obtain a1 ms1 where i: "arena_init a ?v ms = (a1, ms1)"
      by (cases "arena_init a ?v ms")
    note r1 = init_retained [OF assms(1) i, of off]
    show ?thesis
    proof (cases "current a1 = []")
      case True
      with nz \<open>current a = []\<close> i assms(2) r1 show ?thesis
        by (auto simp: arena_alloc_align_def retained_def)
    next
      case False
      with nz \<open>current a = []\<close> i assms(2) have "alloc_loop a1 sz align ms1 = (p, a', ms')"
        by (simp add: arena_alloc_align_def)
      from alloc_loop_retained [OF conjunct2 [OF r1] this, of off] r1 \<open>current a = []\<close>
      show ?thesis by (simp add: retained_def)
    qed
  qed
qed

lemma alloc_seq_retained:
  "mb = NULL \<or> mb \<notin> set ms \<Longrightarrow> alloc_seq rs a ms = Some (a', ms') \<Longrightarrow>
   retained mb off (current a') = retained mb off (current a)"
proof (induction rs arbitrary: a ms)
  case Nil
  then show ?case by simp
next
  case (Cons r rs)
  obtain sz align where r: "r = (sz, align)" by (cases r)
  obtain p a1 ms1 where s: "arena_alloc_align a sz align ms = (p, a1, ms1)"
    by (cases "arena_alloc_align a sz align ms")
  from Cons.prems(2) r s have rest: "alloc_seq rs a1 ms1 = Some (a', ms')"
    by (simp split: if_splits)
  note h = alloc_align_retained [OF Cons.prems(1) s, of off]
  from Cons.IH [OF conjunct2 [OF h] rest] h show ?case by simp
qed

lemma used_loop_sum: "used_loop bs u = u + sum_list (map offset bs)"
  by (induction bs arbitrary: u) (simp_all add: algebra_simps)

section \<open>The invariants of the data model\<close>

text \<open>
  Every operation keeps the offsets of the blocks within their capacities, whatever
  \<open>malloc\<close> answers and whatever a read of freed bytes yields.
\<close>

lemma new_block_ok:
  "arena__new_block c ms = (Some nb, ms') \<Longrightarrow> offset nb \<le> capacity nb"
  by (auto simp: arena__new_block_def malloc_def Let_def split: if_splits list.splits)

lemma init_blocks_ok:
  "arena_init a v ms = (a', ms') \<Longrightarrow> blocks_ok (current a')"
  by (cases "arena__new_block v ms")
     (auto simp: arena_init_def blocks_ok_def split: option.splits dest: new_block_ok)

lemma alloc_loop_blocks_ok:
  assumes "blocks_ok (current a)" and "alloc_loop a sz align ms = (p, a', ms')"
  shows "blocks_ok (current a')"
  by (rule alloc_loop_invariant [where P = "\<lambda>x _. blocks_ok (current x)", OF _ _ _ assms])
     (auto simp: blocks_ok_def dest: new_block_ok)

lemma alloc_align_invariant:
  assumes init: "\<And>v a1 ms1. arena_init a v ms = (a1, ms1) \<Longrightarrow> Q a1"
    and loop: "\<And>a0 ms0. Q a0 \<Longrightarrow> alloc_loop a0 sz align ms0 = (p, a', ms') \<Longrightarrow> Q a'"
    and start: "Q a"
    and call: "arena_alloc_align a sz align ms = (p, a', ms')"
  shows "Q a'"
proof (cases "sz = 0")
  case True
  with call start show ?thesis by (simp add: arena_alloc_align_def)
next
  case nz: False
  show ?thesis
  proof (cases "current a = []")
    case False
    with nz call have "alloc_loop a sz align ms = (p, a', ms')"
      by (simp add: arena_alloc_align_def)
    from loop [OF start this] show ?thesis .
  next
    case True
    let ?v = "arena__max (default_block_size a) (sz + (if align \<noteq> 0 then align else 0))"
    obtain a1 ms1 where i: "arena_init a ?v ms = (a1, ms1)"
      by (cases "arena_init a ?v ms")
    show ?thesis
    proof (cases "current a1 = []")
      case e: True
      with nz True i call have "a' = a1" by (simp add: arena_alloc_align_def)
      with init [OF i] show ?thesis by simp
    next
      case False
      with nz True i call have "alloc_loop a1 sz align ms1 = (p, a', ms')"
        by (simp add: arena_alloc_align_def)
      from loop [OF init [OF i] this] show ?thesis .
    qed
  qed
qed

lemma alloc_align_blocks_ok:
  assumes "blocks_ok (current a)" and "arena_alloc_align a sz align ms = (p, a', ms')"
  shows "blocks_ok (current a')"
  by (rule alloc_align_invariant [where Q = "\<lambda>x. blocks_ok (current x)", OF _ _ assms])
     (erule init_blocks_ok, erule (1) alloc_loop_blocks_ok)

lemma release_blocks_ok:
  assumes "blocks_ok (current a)"
  shows "blocks_ok (current (arena_release a m))"
proof -
  have d: "blocks_ok (dropWhile (\<lambda>b. addr b \<noteq> m_block m) (current a))"
    using assms unfolding blocks_ok_def list_all_iff by (auto dest: set_dropWhileD)
  show ?thesis
  proof (cases "dropWhile (\<lambda>b. addr b \<noteq> m_block m) (current a)")
    case Nil
    show ?thesis unfolding release_current Nil by (simp add: blocks_ok_def)
  next
    case (Cons b prev)
    from d show ?thesis unfolding release_current Cons by (simp add: blocks_ok_def)
  qed
qed

lemma reset_loop_last:
  "fst (reset_loop fc b prev r) = last (b # prev)"
  by (induction prev arbitrary: b r) simp_all

lemma reset_blocks_ok:
  assumes "blocks_ok (current a)"
  shows "blocks_ok (current (arena_reset fc a))"
proof (cases "current a")
  case Nil
  with assms show ?thesis by (simp add: arena_reset_def)
next
  case (Cons b prev)
  obtain b' r' where l: "reset_loop fc b prev (reserved a) = (b', r')"
    by (cases "reset_loop fc b prev (reserved a)")
  with Cons show ?thesis by (simp add: arena_reset_def blocks_ok_def)
qed

text \<open>
  The sum in \<open>reserved\<close> is kept by \<open>arena_init\<close>, \<open>arena_alloc_align\<close>, \<open>arena_release\<close>
  and \<open>arena_destroy\<close>. \<open>arena_reset\<close> keeps it when the read of \<open>b->capacity\<close> after
  \<open>free(b)\<close> still yields the capacity the block had, that is for \<open>freed_capacity =
  capacity\<close>; then it also leaves exactly the oldest block, with offset 0, and
  \<open>reserved\<close> equal to its capacity.
\<close>

lemma destroy_loop_empty: "destroy_loop bs = []"
  by (induction bs) simp_all

lemma reset_loop_capacity:
  "reset_loop capacity b prev r =
     (last (b # prev), r - sum_list (map capacity (butlast (b # prev))))"
  by (induction prev arbitrary: b r) (simp_all add: algebra_simps)

lemma sum_list_butlast_last:
  "bs \<noteq> [] \<Longrightarrow> sum_list (map f bs) = sum_list (map f (butlast bs)) + (f (last bs) :: size_t)"
  by (induction bs) (simp_all add: algebra_simps)

lemma reset_untouched_freed_bytes:
  assumes "current a \<noteq> []" and "reserved a = sum_list (map capacity (current a))"
  shows "arena_reset capacity a =
           a\<lparr>current := [last (current a)\<lparr>offset := 0\<rparr>],
             reserved := capacity (last (current a))\<rparr>"
proof -
  obtain b prev where c: "current a = b # prev" using assms(1) by (cases "current a") auto
  have r: "reserved a - sum_list (map capacity (butlast (current a))) = capacity (last (current a))"
    unfolding assms(2) sum_list_butlast_last [OF assms(1)] by simp
  have "arena_reset capacity a =
          a\<lparr>current := [last (b # prev)\<lparr>offset := 0\<rparr>],
            reserved := reserved a - sum_list (map capacity (butlast (b # prev)))\<rparr>"
    unfolding arena_reset_def c reset_loop_capacity by simp
  then show ?thesis
    unfolding c [symmetric] r .
qed

lemma init_accounted:
  "arena_init a v ms = (a', ms') \<Longrightarrow> accounted a'"
  by (cases "arena__new_block v ms") (auto simp: arena_init_def accounted_def split: option.splits)

lemma alloc_loop_accounted:
  assumes "accounted a" and "alloc_loop a sz align ms = (p, a', ms')"
  shows "accounted a'"
  by (rule alloc_loop_invariant [where P = "\<lambda>x _. accounted x", OF _ _ _ assms])
     (auto simp: accounted_def)

lemma alloc_align_accounted:
  assumes "accounted a" and "arena_alloc_align a sz align ms = (p, a', ms')"
  shows "accounted a'"
  by (rule alloc_align_invariant [where Q = accounted, OF _ _ assms])
     (erule init_accounted, erule (1) alloc_loop_accounted)

lemma release_accounted:
  assumes "accounted a"
  shows "accounted (arena_release a m)"
proof (cases "current a = []")
  case True
  with assms show ?thesis by (simp add: arena_release_def)
next
  case False
  define d where "d = dropWhile (\<lambda>b. addr b \<noteq> m_block m) (current a)"
  define t where "t = takeWhile (\<lambda>b. addr b \<noteq> m_block m) (current a)"
  have "current a = t @ d" by (simp add: d_def t_def)
  with assms have "reserved a = sum_list (map capacity t) + sum_list (map capacity d)"
    by (simp add: accounted_def)
  then have r: "reserved a - sum_list (map capacity t) = sum_list (map capacity d)"
    by simp
  have rel: "arena_release a m =
               (case d of
                  [] \<Rightarrow> a\<lparr>current := [], reserved := reserved a - sum_list (map capacity t)\<rparr>
                | b # prev \<Rightarrow>
                    if addr b = m_block m
                    then a\<lparr>current := b\<lparr>offset := (if m_offset m \<le> capacity b then m_offset m else 0)\<rparr> # prev,
                           reserved := reserved a - sum_list (map capacity t)\<rparr>
                    else a\<lparr>current := d, reserved := reserved a - sum_list (map capacity t)\<rparr>)"
    using False unfolding arena_release_def release_loop_eq d_def t_def by simp
  show ?thesis
  proof (cases d)
    case Nil
    with r show ?thesis by (simp add: rel accounted_def)
  next
    case (Cons b prev)
    with r show ?thesis by (simp add: rel accounted_def)
  qed
qed

lemma reset_accounted:
  assumes "accounted a"
  shows "accounted (arena_reset capacity a)"
proof (cases "current a = []")
  case True
  with assms show ?thesis by (simp add: arena_reset_def)
next
  case False
  from reset_untouched_freed_bytes [OF False] assms show ?thesis
    by (simp add: accounted_def)
qed

lemma destroy_accounted: "accounted (arena_destroy a)"
  by (simp add: arena_destroy_def accounted_def destroy_loop_empty)

section \<open>Failing calls and the first block\<close>

text \<open>A call of the loop that returns \<open>NULL\<close> and has linked no block has changed nothing.\<close>

lemma alloc_loop_fail_same:
  assumes "alloc_loop a sz align ms = (NULL, a', ms')"
    and "length (current a') = length (current a)"
  shows "a' = a"
proof (cases "current a")
  case Nil
  with assms show ?thesis by (simp add: alloc_loop_Nil)
next
  case (Cons b prev)
  let ?al = "arena__align_up_ptr (data b + offset b) align"
  let ?sz' = "if align \<noteq> 0 then align - 1 else 0"
  let ?cap = "arena__max (default_block_size a) ?sz'"
  note eq = assms(1) [unfolded alloc_loop_Cons [OF Cons]]
  obtain r ms1 where nb: "arena__new_block ?cap ms = (r, ms1)"
    by (cases "arena__new_block ?cap ms")
  show ?thesis
  proof (cases r)
    case None
    with eq nb show ?thesis by (auto simp: NULL_def split: if_splits)
  next
    case (Some b')
    have "a' \<noteq> a \<Longrightarrow>
          alloc_loop (a\<lparr>current := b' # current a, reserved := reserved a + capacity b'\<rparr>)
            ?sz' align ms1 = (NULL, a', ms')"
      using eq nb Some by (auto simp: NULL_def split: if_splits)
    from alloc_loop_length [OF this] assms(2) show ?thesis by auto
  qed
qed

lemma init_fields:
  "arena_init a v ms = (a1, ms1) \<Longrightarrow>
   default_block_size a1 = (if v \<noteq> 0 then v else 1)
   \<and> (current a1 = [] \<longrightarrow> a1 = \<lparr>current = [], default_block_size = (if v \<noteq> 0 then v else 1), reserved = 0\<rparr>
         \<and> arena__new_block v ms = (None, ms1))"
  by (cases "arena__new_block v ms") (auto simp: arena_init_def split: option.splits)

lemma alloc_align_absent:
  assumes "current a = []" and "sz \<noteq> 0"
    and "arena_init a (arena__max (default_block_size a) (sz + align)) ms = (a1, ms1)"
  shows "arena_alloc_align a sz align ms =
           (if current a1 = [] then (NULL, a1, ms1) else alloc_loop a1 sz align ms1)"
proof -
  have "sz + (if align \<noteq> 0 then align else 0) = sz + align" by simp
  with assms show ?thesis by (simp add: arena_alloc_align_def)
qed

text \<open>
  \<open>arena_zalloc_align\<close> and \<open>arena_strdup\<close> change the arena as the call of
  \<open>arena_alloc_align\<close> they make does; they write bytes and nothing else.
\<close>

lemma zalloc_arena:
  "fst (snd (arena_zalloc_align a sz align ms mem)) = fst (snd (arena_alloc_align a sz align ms))"
  by (simp add: arena_zalloc_align_def split: prod.split)

lemma strdup_arena:
  "fst (snd (arena_strdup a s ms mem)) = fst (snd (arena_alloc_align a (strlen s + 1) 1 ms))"
  by (simp add: arena_strdup_def Let_def split: prod.split)

text \<open>The equations that evaluate a call on given numbers.\<close>

lemmas eval_defs =
  arena_alloc_align_def alloc_loop.simps arena__align_up_ptr_def data_def arena__max_def
  arena__new_block_def arena_init_def malloc_def zero_arena_def
  NULL_def SIZE_MAX_def UINTPTR_MAX_def sizeof_ArenaBlock_def alignof_max_align_t_def

section \<open>Properties\<close>

text \<open>
  C7. A request of size 0 returns \<open>NULL\<close> and changes nothing: the arena is the same
  value after the call, so \<open>arena_bytes_used\<close> and \<open>arena_bytes_reserved\<close> are the same,
  and \<open>malloc\<close> is not called.
\<close>

theorem alloc_zero_noop:
  "arena_alloc_align a 0 align ms = (NULL, a, ms)
   \<and> arena_bytes_used (fst (snd (arena_alloc_align a 0 align ms))) = arena_bytes_used a
   \<and> arena_bytes_reserved (fst (snd (arena_alloc_align a 0 align ms))) = arena_bytes_reserved a"
  by (simp add: arena_alloc_align_def)

text \<open>
  C8. A mark whose block is not in the chain (a reset freed it): \<open>arena_release\<close> frees
  every block of the chain, so that no current block is left, takes the capacity of each
  freed block off \<open>reserved\<close>, restores no offset, and leaves \<open>default_block_size\<close> as
  it was. The function is total: it returns for every arena and every mark.
\<close>

theorem release_stale_mark:
  "m_block m \<notin> addr ` set (current a) \<Longrightarrow>
   arena_release a m = a\<lparr>current := [], reserved := reserved a - sum_list (map capacity (current a))\<rparr>"
proof -
  assume stale: "m_block m \<notin> addr ` set (current a)"
  then have all: "\<forall>b\<in>set (current a). addr b \<noteq> m_block m"
    by (metis imageI)
  then have tw: "takeWhile (\<lambda>b. addr b \<noteq> m_block m) (current a) = current a"
    and dw: "dropWhile (\<lambda>b. addr b \<noteq> m_block m) (current a) = []"
    by simp_all
  show ?thesis
  proof (cases "current a")
    case Nil
    then show ?thesis by (simp add: arena_release_def)
  next
    case (Cons b prev)
    then have ne: "current a \<noteq> []" by simp
    show ?thesis
      unfolding arena_release_def release_loop_eq tw dw using ne by simp
  qed
qed

theorem release_stale_mark_witness:
  "m_block \<lparr>m_block = 12288, m_offset = 5\<rparr>
     \<notin> addr ` set (current \<lparr>current = [\<lparr>addr = 8192, capacity = 64, offset = 1\<rparr>,
                                        \<lparr>addr = 4096, capacity = 32, offset = 7\<rparr>],
                             default_block_size = 32, reserved = 96\<rparr>)
   \<and> arena_release \<lparr>current = [\<lparr>addr = 8192, capacity = 64, offset = 1\<rparr>,
                                 \<lparr>addr = 4096, capacity = 32, offset = 7\<rparr>],
                      default_block_size = 32, reserved = 96\<rparr>
         \<lparr>m_block = 12288, m_offset = 5\<rparr>
       = \<lparr>current = [], default_block_size = 32, reserved = 0\<rparr>"
proof -
  let ?a = "\<lparr>current = [\<lparr>addr = 8192, capacity = 64, offset = 1\<rparr>,
                         \<lparr>addr = 4096, capacity = 32, offset = 7\<rparr>],
              default_block_size = 32, reserved = 96\<rparr>"
  let ?m = "\<lparr>m_block = 12288, m_offset = 5\<rparr>"
  have stale: "m_block ?m \<notin> addr ` set (current ?a)" by simp
  from release_stale_mark [OF stale] stale show ?thesis by simp
qed

text \<open>
  C4. A mark is taken on an arena whose current block (if there is one) has its offset
  within its capacity, and \<open>malloc\<close> then never answers with the address of that block,
  which stays live. After any sequence of allocations that all succeed,
  \<open>arena_release\<close> with the mark gives back the chain of the moment of the mark:
  \<open>arena_bytes_used\<close> is what it was, the marked block is current again and its offset
  is the offset the mark captured.
\<close>

theorem mark_release_restores:
  assumes ok: "case current a of [] \<Rightarrow> True | b # _ \<Rightarrow> offset b \<le> capacity b \<and> addr b \<notin> set ms"
    and run: "alloc_seq rs a ms = Some (a', ms')"
  shows "arena_bytes_used (arena_release a' (arena_mark a)) = arena_bytes_used a
         \<and> current (arena_release a' (arena_mark a)) = current a
         \<and> (case current (arena_release a' (arena_mark a)) of
               [] \<Rightarrow> current a = []
             | b # _ \<Rightarrow> addr b = m_block (arena_mark a) \<and> offset b = m_offset (arena_mark a))"
proof -
  let ?m = "arena_mark a"
  have cur: "current (arena_release a' ?m) = current a"
  proof (cases "current a")
    case Nil
    then have mb: "m_block ?m = NULL" by (simp add: arena_mark_def current_ptr_def)
    have "retained (m_block ?m) 0 (current a') = retained (m_block ?m) 0 (current a)"
      by (rule alloc_seq_retained [OF _ run]) (simp add: mb)
    with Nil have "retained (m_block ?m) 0 (current a') = []" by (simp add: retained_def)
    from release_retained_Nil [OF this] Nil show ?thesis by simp
  next
    case (Cons h prev)
    then have mb: "m_block ?m = addr h" and mo: "m_offset ?m = offset h"
      by (simp_all add: arena_mark_def current_ptr_def)
    from ok Cons have le: "offset h \<le> capacity h" and fresh: "addr h \<notin> set ms" by simp_all
    have "retained (m_block ?m) (m_offset ?m) (current a') = retained (m_block ?m) (m_offset ?m) (current a)"
      by (rule alloc_seq_retained [OF _ run]) (simp add: mb fresh)
    also have "\<dots> = h # prev" by (simp add: Cons mb mo retained_def)
    finally have "retained (m_block ?m) (m_offset ?m) (current a') = h # prev" .
    from release_retained_Cons [OF this] le mo Cons show ?thesis by simp
  qed
  have used: "arena_bytes_used (arena_release a' ?m) = arena_bytes_used a"
    by (simp add: arena_bytes_used_def cur)
  have marked: "case current (arena_release a' ?m) of
                  [] \<Rightarrow> current a = []
                | b # _ \<Rightarrow> addr b = m_block ?m \<and> offset b = m_offset ?m"
    unfolding cur by (simp add: arena_mark_def current_ptr_def split: list.split)
  show ?thesis
    by (intro conjI used cur marked)
qed

theorem mark_release_restores_witness:
  "(case current \<lparr>current = [\<lparr>addr = 4096, capacity = 64, offset = 11\<rparr>],
                    default_block_size = 64, reserved = 64\<rparr> of
      [] \<Rightarrow> True
    | b # _ \<Rightarrow> offset b \<le> capacity b \<and> addr b \<notin> set [8192])
   \<and> alloc_seq [(10, 1), (1000, 1)]
         \<lparr>current = [\<lparr>addr = 4096, capacity = 64, offset = 11\<rparr>],
            default_block_size = 64, reserved = 64\<rparr> [8192]
       = Some (\<lparr>current = [\<lparr>addr = 8192, capacity = 64, offset = 1\<rparr>,
                             \<lparr>addr = 4096, capacity = 64, offset = 22\<rparr>],
                  default_block_size = 64, reserved = 128\<rparr>, [])
   \<and> arena_bytes_used
         (arena_release
            \<lparr>current = [\<lparr>addr = 8192, capacity = 64, offset = 1\<rparr>,
                         \<lparr>addr = 4096, capacity = 64, offset = 22\<rparr>],
              default_block_size = 64, reserved = 128\<rparr>
            (arena_mark \<lparr>current = [\<lparr>addr = 4096, capacity = 64, offset = 11\<rparr>],
                          default_block_size = 64, reserved = 64\<rparr>))
       = 11"
proof -
  let ?a = "\<lparr>current = [\<lparr>addr = 4096, capacity = 64, offset = 11\<rparr>],
              default_block_size = 64, reserved = 64\<rparr>"
  let ?a' = "\<lparr>current = [\<lparr>addr = 8192, capacity = 64, offset = 1\<rparr>,
                          \<lparr>addr = 4096, capacity = 64, offset = 22\<rparr>],
               default_block_size = 64, reserved = 128\<rparr>"
  have ok: "case current ?a of [] \<Rightarrow> True
            | b # _ \<Rightarrow> offset b \<le> capacity b \<and> addr b \<notin> set [8192]"
    by simp
  have run: "alloc_seq [(10, 1), (1000, 1)] ?a [8192] = Some (?a', [])"
    by (simp add: arena_alloc_align_def alloc_loop.simps arena__align_up_ptr_def data_def
          arena__max_def arena__new_block_def malloc_def NULL_def SIZE_MAX_def UINTPTR_MAX_def
          sizeof_ArenaBlock_def)
  have used: "arena_bytes_used ?a = 11"
    by (simp add: arena_bytes_used_def)
  from mark_release_restores [OF ok run] ok run used show ?thesis
    by simp
qed

text \<open>
  C3, as stated, fails: on the zero-valued arena a call whose first block cannot be
  created returns \<open>NULL\<close> and has nevertheless written \<open>default_block_size\<close>, because
  \<open>arena_init\<close> writes the field whether or not \<open>malloc\<close> succeeded.
\<close>

theorem alloc_failure_changes_default_counterexample:
  "arena_alloc_align zero_arena 10 8 [] =
     (NULL, \<lparr>current = [], default_block_size = 18, reserved = 0\<rparr>, [])
   \<and> fst (snd (arena_alloc_align zero_arena 10 8 [])) \<noteq> zero_arena"
  by (simp add: eval_defs)

text \<open>
  C3, amended. A call of \<open>arena_alloc_align\<close> that returns \<open>NULL\<close> and has linked no
  block leaves an arena that had a current block exactly as it was (and so does every
  call with size 0). On an arena without a current block such a call has run
  \<open>arena_init\<close>: the chain is still empty, \<open>reserved\<close> is 0 and
  \<open>default_block_size\<close> is \<open>max(default_block_size, size + align)\<close>, or 1 when that is 0.
\<close>

theorem alloc_failure_state:
  assumes fail: "arena_alloc_align a sz align ms = (NULL, a', ms')"
    and same: "length (current a') = length (current a)"
  shows "if current a \<noteq> [] \<or> sz = 0 then a' = a
         else a' = \<lparr>current = [],
                    default_block_size =
                      (if arena__max (default_block_size a) (sz + align) \<noteq> 0
                       then arena__max (default_block_size a) (sz + align) else 1),
                    reserved = 0\<rparr>"
proof (cases "sz = 0")
  case True
  with fail show ?thesis by (simp add: arena_alloc_align_def)
next
  case nz: False
  show ?thesis
  proof (cases "current a = []")
    case False
    with nz fail have "alloc_loop a sz align ms = (NULL, a', ms')"
      by (simp add: arena_alloc_align_def)
    from alloc_loop_fail_same [OF this same] False show ?thesis by simp
  next
    case True
    let ?v = "arena__max (default_block_size a) (sz + (if align \<noteq> 0 then align else 0))"
    have v: "?v = arena__max (default_block_size a) (sz + align)" by simp
    obtain a1 ms1 where i: "arena_init a ?v ms = (a1, ms1)"
      by (cases "arena_init a ?v ms")
    show ?thesis
    proof (cases "current a1 = []")
      case e: True
      with nz True i fail have "a' = a1" by (simp add: arena_alloc_align_def)
      with init_fields [OF i] e nz True show ?thesis by (simp only: v) simp
    next
      case False
      with nz True i fail have "alloc_loop a1 sz align ms1 = (NULL, a', ms')"
        by (simp add: arena_alloc_align_def)
      from alloc_loop_length [OF this] False same True show ?thesis by simp
    qed
  qed
qed

theorem alloc_failure_state_witness:
  "arena_alloc_align
     \<lparr>current = [\<lparr>addr = 4096, capacity = 64, offset = 11\<rparr>], default_block_size = 64, reserved = 64\<rparr>
     18446744073709551612 8 [8192]
   = (NULL,
      \<lparr>current = [\<lparr>addr = 4096, capacity = 64, offset = 11\<rparr>], default_block_size = 64, reserved = 64\<rparr>,
      [8192])"
proof -
  let ?a = "\<lparr>current = [\<lparr>addr = 4096, capacity = 64, offset = 11\<rparr>],
              default_block_size = 64, reserved = 64\<rparr>"
  obtain p a' ms' where r: "arena_alloc_align ?a 18446744073709551612 8 [8192] = (p, a', ms')"
    by (cases "arena_alloc_align ?a 18446744073709551612 8 [8192]")
  have p: "p = NULL" and ms': "ms' = [8192]" and len: "length (current a') = length (current ?a)"
    using r by (simp_all add: eval_defs)
  from alloc_failure_state [OF r [unfolded p] len] r p ms' show ?thesis by simp
qed

text \<open>
  C10, as stated, fails at two inputs. With size 0 the call returns before
  \<open>arena_init\<close> and \<open>default_block_size\<close> keeps its value, 0 here and not
  \<open>max(0, 0 + 8) = 8\<close>. With size \<open>SIZE_MAX\<close> and alignment 1 the sum wraps to 0,
  \<open>arena_init\<close> is called with 0 and stores 1.
\<close>

theorem alloc_absent_current_counterexample:
  "default_block_size (fst (snd (arena_alloc_align zero_arena 0 8 [4096]))) = 0
   \<and> arena__max (default_block_size zero_arena) (0 + 8) = 8
   \<and> default_block_size (fst (snd (arena_alloc_align zero_arena 18446744073709551615 1 []))) = 1
   \<and> arena__max (default_block_size zero_arena) (18446744073709551615 + 1) = 0"
  by (simp add: eval_defs)

text \<open>
  C10, amended. A call of \<open>arena_alloc_align\<close> with a size other than 0 on an arena
  without a current block runs \<open>arena_init\<close> with
  \<open>v = max(default_block_size, size + align)\<close>, the sum taken in \<open>size_t\<close>; afterwards
  \<open>default_block_size\<close> is \<open>v\<close>, or 1 when \<open>v\<close> is 0, whatever the rest of the call does.
  That holds also when the block cannot be created, where the call returns \<open>NULL\<close> and
  the chain stays empty.
\<close>

theorem alloc_absent_current_overwrites_default:
  assumes absent: "current a = []" and nz: "sz \<noteq> 0"
  shows "default_block_size (fst (snd (arena_alloc_align a sz align ms))) =
           (if arena__max (default_block_size a) (sz + align) \<noteq> 0
            then arena__max (default_block_size a) (sz + align) else 1)
         \<and> (fst (arena__new_block (arena__max (default_block_size a) (sz + align)) ms) = None \<longrightarrow>
              fst (arena_alloc_align a sz align ms) = NULL
              \<and> current (fst (snd (arena_alloc_align a sz align ms))) = [])"
proof -
  define v where "v = arena__max (default_block_size a) (sz + align)"
  obtain a1 ms1 where i: "arena_init a v ms = (a1, ms1)"
    by (cases "arena_init a v ms")
  note res = alloc_align_absent [OF absent nz i [unfolded v_def]]
  have d1: "default_block_size a1 = (if v \<noteq> 0 then v else 1)"
    using init_fields [OF i] by simp
  have dbs: "default_block_size (fst (snd (arena_alloc_align a sz align ms))) = (if v \<noteq> 0 then v else 1)"
  proof (cases "current a1 = []")
    case True
    then show ?thesis by (simp add: res d1)
  next
    case False
    obtain p a' ms' where l: "alloc_loop a1 sz align ms1 = (p, a', ms')"
      by (cases "alloc_loop a1 sz align ms1")
    from alloc_loop_dbs [OF l] False show ?thesis by (simp add: res l d1)
  qed
  have failed: "fst (arena__new_block v ms) = None \<Longrightarrow> current a1 = []"
    using i by (cases "arena__new_block v ms") (auto simp: arena_init_def)
  have "fst (arena__new_block v ms) = None \<longrightarrow>
          fst (arena_alloc_align a sz align ms) = NULL
          \<and> current (fst (snd (arena_alloc_align a sz align ms))) = []"
    using failed by (simp add: res)
  with dbs show ?thesis unfolding v_def by blast
qed

theorem alloc_absent_current_overwrites_default_witness:
  "current zero_arena = [] \<and> (10 :: size_t) \<noteq> 0
   \<and> default_block_size (fst (snd (arena_alloc_align zero_arena 10 8 []))) = 18
   \<and> fst (arena__new_block (arena__max (default_block_size zero_arena) (10 + 8)) []) = None
   \<and> fst (arena_alloc_align zero_arena 10 8 []) = NULL"
proof -
  have absent: "current zero_arena = []" by (simp add: zero_arena_def)
  have nz: "(10 :: size_t) \<noteq> 0" by simp
  have v: "arena__max (default_block_size zero_arena) (10 + 8) = 18"
    by (simp add: eval_defs)
  have nb: "fst (arena__new_block (arena__max (default_block_size zero_arena) (10 + 8)) []) = None"
    by (simp add: eval_defs)
  from alloc_absent_current_overwrites_default [OF absent nz, of 8 "[]"] absent nz v nb
  show ?thesis by simp
qed

text \<open>
  C1. The claim asks for a new block of capacity \<open>max(default_block_size, size + slack)\<close>,
  at least 1000 after \<open>init(64)\<close> and \<open>allocate(1000, 1)\<close>. The code at that input:
  \<open>min_needed = size = (align ? align - 1 : 0)\<close> sets both to 0, the new block gets the
  default capacity 64, and the next pass serves a request of size 0 from it: the call
  returns \<open>data + 1\<close> of the new block and moves its offset to 1.
\<close>

theorem new_block_capacity_lost:
  "arena_init zero_arena 64 [4096, 8192] =
     (\<lparr>current = [\<lparr>addr = 4096, capacity = 64, offset = 0\<rparr>],
        default_block_size = 64, reserved = 64\<rparr>, [8192])
   \<and> arena_alloc_align
         \<lparr>current = [\<lparr>addr = 4096, capacity = 64, offset = 0\<rparr>],
            default_block_size = 64, reserved = 64\<rparr> 1000 1 [8192] =
     (8217,
      \<lparr>current = [\<lparr>addr = 8192, capacity = 64, offset = 1\<rparr>,
                   \<lparr>addr = 4096, capacity = 64, offset = 0\<rparr>],
        default_block_size = 64, reserved = 128\<rparr>, [])"
  by (simp add: eval_defs)

text \<open>
  C2. The claim asks for the smallest multiple of the alignment that is not below the
  address, the address itself when it is a multiple. The code adds \<open>align - p % align\<close>,
  which is \<open>align\<close> for a multiple: 16 aligned to 8 gives 24, 4096 aligned to the
  default 16 gives 4112, and the multiple of 8 just below the top of the address space is
  reported as an overflow.
\<close>

theorem align_up_moves_aligned_address:
  "arena__align_up_ptr 16 8 = 24
   \<and> arena__align_up_ptr 4096 0 = 4112
   \<and> arena__align_up_ptr 18446744073709551608 8 = 0"
  by (simp add: eval_defs)

text \<open>
  C5. The claim asks that \<open>arena_bytes_reserved\<close> is the capacity of the one block left.
  On a chain of two blocks of capacity 64 with \<open>reserved = 128\<close> the code frees the newer
  block and then subtracts what it reads from the freed block's \<open>capacity\<close> field:
  \<open>reserved\<close> ends as 128 minus that value, which is 64 only if the freed bytes still
  hold 64 (128 if they read as 0). The chain and the offset are as the claim says.
\<close>

theorem reset_subtracts_freed_read:
  "arena_reset freed_capacity
     \<lparr>current = [\<lparr>addr = 8192, capacity = 64, offset = 1\<rparr>,
                  \<lparr>addr = 4096, capacity = 64, offset = 11\<rparr>],
       default_block_size = 64, reserved = 128\<rparr> =
     \<lparr>current = [\<lparr>addr = 4096, capacity = 64, offset = 0\<rparr>],
       default_block_size = 64,
       reserved = 128 - freed_capacity \<lparr>addr = 8192, capacity = 64, offset = 1\<rparr>\<rparr>
   \<and> arena_bytes_reserved
         (arena_reset (\<lambda>b. 0)
            \<lparr>current = [\<lparr>addr = 8192, capacity = 64, offset = 1\<rparr>,
                         \<lparr>addr = 4096, capacity = 64, offset = 11\<rparr>],
              default_block_size = 64, reserved = 128\<rparr>) = 128"
  by (simp add: arena_reset_def arena_bytes_reserved_def)

text \<open>
  C6. The claim asks that \<open>reserved\<close> is the sum of the capacities of the live blocks
  after every sequence of operations. After \<open>init(64)\<close>, \<open>allocate(1000, 1)\<close> and
  \<open>reset()\<close> on the zero-valued arena one block of capacity 64 is live, and
  \<open>reserved\<close> is 128 minus the value read from the freed block.
\<close>

theorem accounting_after_reset:
  "(case arena_init zero_arena 64 [4096, 8192] of
      (a1, ms1) \<Rightarrow>
        (case arena_alloc_align a1 1000 1 ms1 of
           (p, a2, ms2) \<Rightarrow>
             (arena_bytes_reserved (arena_reset freed_capacity a2),
              sum_list (map capacity (current (arena_reset freed_capacity a2))),
              arena_bytes_used (arena_reset freed_capacity a2))))
   = (128 - freed_capacity \<lparr>addr = 8192, capacity = 64, offset = 1\<rparr>, 64, 0)"
  by (simp add: eval_defs arena_reset_def arena_bytes_reserved_def arena_bytes_used_def)

text \<open>
  C9. The claim asks for a region of \<open>strlen(s) + 1\<close> bytes. With a current block of
  capacity 8 and the 14 characters of \<open>blah blah blah\<close>, the request of 15 bytes does not
  fit, the new block gets capacity 8 again and the call returns \<open>data + 1 = 8217\<close> with
  the offset of the block at 1. The 15 bytes that \<open>memcpy\<close> writes run from 8217 to
  8231; the bytes of the block end before 8224.
\<close>

theorem strdup_region_outside_block:
  "fst (arena_strdup
          \<lparr>current = [\<lparr>addr = 4096, capacity = 8, offset = 0\<rparr>],
             default_block_size = 8, reserved = 8\<rparr>
          [98, 108, 97, 104, 32, 98, 108, 97, 104, 32, 98, 108, 97, 104, 0] [8192] mem) = 8217
   \<and> fst (snd (arena_strdup
          \<lparr>current = [\<lparr>addr = 4096, capacity = 8, offset = 0\<rparr>],
             default_block_size = 8, reserved = 8\<rparr>
          [98, 108, 97, 104, 32, 98, 108, 97, 104, 32, 98, 108, 97, 104, 0] [8192] mem)) =
       \<lparr>current = [\<lparr>addr = 8192, capacity = 8, offset = 1\<rparr>,
                    \<lparr>addr = 4096, capacity = 8, offset = 0\<rparr>],
         default_block_size = 8, reserved = 16\<rparr>
   \<and> strlen [98, 108, 97, 104, 32, 98, 108, 97, 104, 32, 98, 108, 97, 104, 0] + 1 = 15
   \<and> data \<lparr>addr = 8192, capacity = 8, offset = 1\<rparr> + 8 = 8224"
  by (simp add: eval_defs arena_strdup_def strlen_def)

end
